theory Spec2Isabelle
  imports Main "HOL-Library.Sublist"
begin

section \<open>DomainMatcher (storage.ts)\<close>

text \<open>
  Strings are lists of 8-bit characters.  \<open>toLowerCase\<close> and \<open>trim\<close> are the ASCII parts of
  the JavaScript built-ins: letters \<open>A\<close>..\<open>Z\<close> are folded, and the white space removed at
  both ends is TAB, LF, VT, FF, CR and SPACE.  Host names are ASCII (the browser reports
  internationalised names in their punycode form).
\<close>

definition toLowerCase_char :: "char \<Rightarrow> char" where
  "toLowerCase_char c =
     (let n = (of_char c :: nat) in if 65 \<le> n \<and> n \<le> 90 then char_of (n + 32) else c)"

definition toLowerCase :: "string \<Rightarrow> string" where
  "toLowerCase s = map toLowerCase_char s"

definition is_white_space :: "char \<Rightarrow> bool" where
  "is_white_space c = (let n = (of_char c :: nat) in (9 \<le> n \<and> n \<le> 13) \<or> n = 32)"

definition trim :: "string \<Rightarrow> string" where
  "trim s = rev (dropWhile is_white_space (rev (dropWhile is_white_space s)))"

definition startsWith :: "string \<Rightarrow> string \<Rightarrow> bool" where
  "startsWith s p = (take (length p) s = p)"

definition endsWith :: "string \<Rightarrow> string \<Rightarrow> bool" where
  "endsWith s q = (length q \<le> length s \<and> drop (length s - length q) s = q)"

definition slice :: "string \<Rightarrow> nat \<Rightarrow> string" where
  "slice s n = drop n s"

definition matchDomain :: "string \<Rightarrow> string \<Rightarrow> bool" where
  "matchDomain hostname0 pattern0 =
     (let pattern = toLowerCase (trim pattern0);
          hostname = toLowerCase hostname0
      in if startsWith pattern ''*.''
         then (let baseDomain = slice pattern 2
               in hostname = baseDomain \<or> endsWith hostname (''.'' @ baseDomain))
         else hostname = pattern)"

text \<open>
  \<open>window.location.hostname\<close> is the first argument; an absent list (\<open>undefined\<close>) is
  \<open>None\<close>.
\<close>

definition isCurrentDomainAllowed :: "string \<Rightarrow> string list option \<Rightarrow> bool" where
  "isCurrentDomainAllowed hostname allowedDomains =
     (case allowedDomains of
        None \<Rightarrow> True
      | Some ds \<Rightarrow> if length ds = 0 then True
                   else list_ex (\<lambda>pattern. matchDomain hostname pattern) ds)"

section \<open>The document (browser side of selector.ts)\<close>

text \<open>
  An element carries what the synthesizer reads: \<open>tagName\<close> (upper case for the HTML
  elements of an HTML document), its attributes, the tokens of \<open>classList\<close> and its
  element children.  A document is its root element.  An element of the document is
  referred to by a \<open>node\<close>: the child indices from the element up to the root, innermost
  first, so that the root is \<open>[]\<close> and \<open>parentElement\<close> drops the head.
\<close>

datatype element =
  Element (tagName: string) (attributes: "(string \<times> string) list")
          (classList: "string list") (children: "element list")

type_synonym node = "nat list"

definition getAttribute :: "element \<Rightarrow> string \<Rightarrow> string option" where
  "getAttribute e a = map_of (attributes e) a"

text \<open>\<open>el.id\<close> reflects the \<open>id\<close> attribute and is the empty string without one.\<close>

definition element_id :: "element \<Rightarrow> string" where
  "element_id e = (case getAttribute e ''id'' of None \<Rightarrow> [] | Some v \<Rightarrow> v)"

fun lookup :: "element \<Rightarrow> node \<Rightarrow> element option" where
  "lookup root [] = Some root"
| "lookup root (i # p) =
     (case lookup root p of
        None \<Rightarrow> None
      | Some parent \<Rightarrow> if i < length (children parent) then Some (children parent ! i) else None)"

text \<open>The nodes of a subtree in document order (the element first, then its children).\<close>

fun subtree_nodes :: "element \<Rightarrow> node \<Rightarrow> node list"
  and children_nodes :: "element list \<Rightarrow> nat \<Rightarrow> node \<Rightarrow> node list" where
  "subtree_nodes (Element t a c ch) r = r # children_nodes ch 0 r"
| "children_nodes [] i r = []"
| "children_nodes (c # cs) i r = subtree_nodes c (i # r) @ children_nodes cs (Suc i) r"

fun first_index :: "('a \<Rightarrow> bool) \<Rightarrow> 'a list \<Rightarrow> nat option" where
  "first_index P [] = None"
| "first_index P (x # xs) = (if P x then Some 0 else map_option Suc (first_index P xs))"

text \<open>\<open>document.body\<close>: the first \<open>body\<close> or \<open>frameset\<close> child of the root element.\<close>

definition document_body :: "element \<Rightarrow> node option" where
  "document_body root =
     map_option (\<lambda>i. [i])
       (first_index (\<lambda>c. tagName c = ''BODY'' \<or> tagName c = ''FRAMESET'') (children root))"

subsection \<open>Selectors\<close>

text \<open>
  The synthesizer builds selector strings from four templates.  A \<open>selector\<close> is the
  template with its holes; \<open>selector_text\<close> is the string the code builds, with the
  browser's \<open>CSS.escape\<close> as the parameter \<open>esc\<close>.  The browser's selector engine is
  modelled on the templates (\<open>matches\<close>): an HTML type selector compares ASCII
  case-insensitively, \<open>#i\<close> compares the \<open>id\<close> attribute, \<open>.c\<close> looks \<open>c\<close> up in the class
  list, \<open>[a="v"]\<close> compares the attribute value (the value of \<open>type\<close> ASCII
  case-insensitively, as HTML documents do), \<open>:nth-child(n)\<close> counts element siblings from
  one, and \<open>>\<close> is the child combinator.  The empty string is not a selector: querying with
  it throws a \<open>SyntaxError\<close>.
\<close>

datatype segment = SegId string | SegTag string | SegNth string nat

datatype selector =
    ById string
  | ByAttr string string string
  | ByClasses string "string list"
  | ByPath "segment list"

fun digit_char :: "nat \<Rightarrow> char" where
  "digit_char n = char_of (48 + n)"

function show_nat :: "nat \<Rightarrow> string" where
  "show_nat n = (if n < 10 then [digit_char n] else show_nat (n div 10) @ [digit_char (n mod 10)])"
  by pat_completeness auto
termination
  by (relation "measure (\<lambda>n. n)") auto

declare show_nat.simps [simp del]

fun join :: "string \<Rightarrow> string list \<Rightarrow> string" where
  "join sep [] = []"
| "join sep [x] = x"
| "join sep (x # y # ys) = x @ sep @ join sep (y # ys)"

fun segment_text :: "(string \<Rightarrow> string) \<Rightarrow> segment \<Rightarrow> string" where
  "segment_text esc (SegId i) = ''#'' @ esc i"
| "segment_text esc (SegTag t) = t"
| "segment_text esc (SegNth t n) = t @ '':nth-child('' @ show_nat n @ '')''"

fun selector_text :: "(string \<Rightarrow> string) \<Rightarrow> selector \<Rightarrow> string" where
  "selector_text esc (ById i) = ''#'' @ esc i"
| "selector_text esc (ByAttr t a v) = t @ ''['' @ a @ ''='' @ [CHR 0x22] @ esc v @ [CHR 0x22] @ '']''"
| "selector_text esc (ByClasses t cs) = t @ concat (map (\<lambda>c. ''.'' @ esc c) cs)"
| "selector_text esc (ByPath segs) = join '' > '' (map (segment_text esc) segs)"

definition type_matches :: "string \<Rightarrow> element \<Rightarrow> bool" where
  "type_matches t e = (toLowerCase t = toLowerCase (tagName e))"

definition attr_matches :: "string \<Rightarrow> string \<Rightarrow> element \<Rightarrow> bool" where
  "attr_matches a v e =
     (case getAttribute e a of
        None \<Rightarrow> False
      | Some w \<Rightarrow> if a = ''type'' then toLowerCase w = toLowerCase v else w = v)"

fun matches_segment :: "element \<Rightarrow> segment \<Rightarrow> node \<Rightarrow> bool" where
  "matches_segment root (SegId i) n =
     (case lookup root n of None \<Rightarrow> False | Some e \<Rightarrow> getAttribute e ''id'' = Some i)"
| "matches_segment root (SegTag t) n =
     (case lookup root n of None \<Rightarrow> False | Some e \<Rightarrow> type_matches t e)"
| "matches_segment root (SegNth t k) n =
     (case lookup root n of
        None \<Rightarrow> False
      | Some e \<Rightarrow> type_matches t e \<and> (case n of [] \<Rightarrow> k = 1 | i # p \<Rightarrow> k = Suc i))"

text \<open>
  \<open>matches_chain\<close> reads a child-combinator chain from its last compound backwards, as
  the engine does: the list is the reversed segment list.
\<close>

fun matches_chain :: "element \<Rightarrow> segment list \<Rightarrow> node \<Rightarrow> bool" where
  "matches_chain root [] n = False"
| "matches_chain root [s] n = matches_segment root s n"
| "matches_chain root (s # s' # ss) n =
     (matches_segment root s n \<and>
      (case n of [] \<Rightarrow> False | i # p \<Rightarrow> matches_chain root (s' # ss) p))"

fun matches :: "element \<Rightarrow> selector \<Rightarrow> node \<Rightarrow> bool" where
  "matches root (ById i) n = matches_segment root (SegId i) n"
| "matches root (ByAttr t a v) n =
     (case lookup root n of None \<Rightarrow> False | Some e \<Rightarrow> type_matches t e \<and> attr_matches a v e)"
| "matches root (ByClasses t cs) n =
     (case lookup root n of
        None \<Rightarrow> False
      | Some e \<Rightarrow> type_matches t e \<and> list_all (\<lambda>c. c \<in> set (classList e)) cs)"
| "matches root (ByPath segs) n = matches_chain root (rev segs) n"

definition matching_nodes :: "element \<Rightarrow> selector \<Rightarrow> node list" where
  "matching_nodes root sel = filter (matches root sel) (subtree_nodes root [])"


text \<open>
  \<open>el.querySelector("input, textarea")\<close>: the first proper descendant of \<open>el\<close>, in
  document order, that is an \<open>input\<close> or a \<open>textarea\<close>.
\<close>

definition is_input_like :: "element \<Rightarrow> node \<Rightarrow> bool" where
  "is_input_like root n =
     (case lookup root n of
        None \<Rightarrow> False
      | Some e \<Rightarrow> type_matches ''input'' e \<or> type_matches ''textarea'' e)"

definition querySelector_input :: "element \<Rightarrow> node \<Rightarrow> node option" where
  "querySelector_input root el =
     (case lookup root el of
        None \<Rightarrow> None
      | Some e \<Rightarrow> find (is_input_like root) (tl (subtree_nodes e el)))"

section \<open>SelectorSynthesizer (selector.ts)\<close>

text \<open>
  \<open>UNSTABLE_CLASS_PATTERNS\<close>: \<open>/^css-/\<close>, \<open>/^sc-/\<close>, \<open>/^emotion-/\<close> and
  \<open>/^_[a-zA-Z0-9]+$/\<close>.
\<close>

definition is_alnum :: "char \<Rightarrow> bool" where
  "is_alnum c =
     (let n = (of_char c :: nat)
      in (48 \<le> n \<and> n \<le> 57) \<or> (65 \<le> n \<and> n \<le> 90) \<or> (97 \<le> n \<and> n \<le> 122))"

definition css_module_class :: "string \<Rightarrow> bool" where
  "css_module_class c =
     (case c of [] \<Rightarrow> False | x # rest \<Rightarrow> x = CHR ''_'' \<and> rest \<noteq> [] \<and> list_all is_alnum rest)"

definition isStableClass :: "string \<Rightarrow> bool" where
  "isStableClass className =
     (\<not> (startsWith className ''css-'' \<or> startsWith className ''sc-''
         \<or> startsWith className ''emotion-'' \<or> css_module_class className))"

text \<open>
  The three attribute candidates (\<open>name\<close>, \<open>placeholder\<close>, \<open>type\<close>) share one shape: the
  attribute must be present and non-empty, and \<open>tag[attr="value"]\<close> must select exactly one
  element of the document.
\<close>

definition attribute_candidate :: "element \<Rightarrow> element \<Rightarrow> string \<Rightarrow> selector option" where
  "attribute_candidate root e a =
     (case getAttribute e a of
        None \<Rightarrow> None
      | Some v \<Rightarrow>
          if v = [] then None
          else (let selector = ByAttr (toLowerCase (tagName e)) a v
                in if length (matching_nodes root selector) = 1 then Some selector else None))"

definition class_candidate :: "element \<Rightarrow> element \<Rightarrow> selector option" where
  "class_candidate root e =
     (if length (classList e) > 0
      then (let stableClasses = filter isStableClass (classList e)
            in if length stableClasses > 0
               then (let selector = ByClasses (toLowerCase (tagName e)) stableClasses
                     in if length (matching_nodes root selector) = 1 then Some selector
                        else None)
               else None)
      else None)"

text \<open>
  One round of the fallback loop for an element with a parent: the tag, with
  \<open>:nth-child(index)\<close> when more than one child of the parent has the element's tag name.
  \<open>index\<close> is the element's position among its parent's children, from one.
\<close>

definition path_segment :: "element \<Rightarrow> element \<Rightarrow> nat \<Rightarrow> node \<Rightarrow> segment" where
  "path_segment root cur i parent =
     (case lookup root parent of
        None \<Rightarrow> SegTag (toLowerCase (tagName cur))
      | Some par \<Rightarrow>
          (let siblings = children par; index = i + 1
           in if length (filter (\<lambda>s. tagName s = tagName cur) siblings) > 1
              then SegNth (toLowerCase (tagName cur)) index
              else SegTag (toLowerCase (tagName cur))))"

text \<open>
  The fallback loop \<open>while (current && current !== document.body)\<close>; \<open>path\<close> is the
  array the loop unshifts onto.
\<close>

fun full_path :: "element \<Rightarrow> node \<Rightarrow> segment list \<Rightarrow> segment list" where
  "full_path root [] path =
     (if Some [] = document_body root then path
      else (case lookup root [] of
              None \<Rightarrow> path
            | Some cur \<Rightarrow>
                if element_id cur \<noteq> [] then SegId (element_id cur) # path
                else SegTag (toLowerCase (tagName cur)) # path))"
| "full_path root (i # parent) path =
     (if Some (i # parent) = document_body root then path
      else (case lookup root (i # parent) of
              None \<Rightarrow> path
            | Some cur \<Rightarrow>
                if element_id cur \<noteq> [] then SegId (element_id cur) # path
                else full_path root parent (path_segment root cur i parent # path)))"

text \<open>
  \<open>generateSelectorForElement\<close> for an element \<open>el\<close> of the document.  A node that is no
  element of the document has no counterpart in the source; the model gives it the empty
  path.
\<close>

definition generateSelectorForElement :: "element \<Rightarrow> node \<Rightarrow> selector" where
  "generateSelectorForElement root el =
     (case lookup root el of
        None \<Rightarrow> ByPath []
      | Some e \<Rightarrow>
          (if element_id e \<noteq> [] then ById (element_id e)
           else (case attribute_candidate root e ''name'' of
                   Some s \<Rightarrow> s
                 | None \<Rightarrow>
                (case class_candidate root e of
                   Some s \<Rightarrow> s
                 | None \<Rightarrow>
                (case attribute_candidate root e ''placeholder'' of
                   Some s \<Rightarrow> s
                 | None \<Rightarrow>
                (case attribute_candidate root e ''type'' of
                   Some s \<Rightarrow> s
                 | None \<Rightarrow> ByPath (full_path root el [])))))))"

definition generateSelector :: "(string \<Rightarrow> string) \<Rightarrow> element \<Rightarrow> node \<Rightarrow> selector" where
  "generateSelector esc root el =
     (case lookup root el of
        None \<Rightarrow> ByPath []
      | Some e \<Rightarrow>
          if tagName e \<noteq> ''INPUT'' \<and> tagName e \<noteq> ''TEXTAREA''
          then (case querySelector_input root el of
                  Some innerInput \<Rightarrow>
                    (let innerSelector = generateSelectorForElement root innerInput
                     in if selector_text esc innerSelector \<noteq> [] then innerSelector
                        else generateSelectorForElement root el)
                | None \<Rightarrow> generateSelectorForElement root el)
          else generateSelectorForElement root el)"


subsection \<open>The fallback path, in the words of the specification\<close>







section \<open>InteractivePicker (selector.ts)\<close>

text \<open>
  The inline style of an element, as the picker reads and writes it: the three properties
  it touches and the others it leaves alone.
\<close>

record style =
  outline :: string
  outlineOffset :: string
  backgroundColor :: string
  otherProperties :: "(string \<times> string) list"

definition HIGHLIGHT_outline :: string where
  "HIGHLIGHT_outline = ''2px solid #3b82f6''"

definition HIGHLIGHT_outlineOffset :: string where
  "HIGHLIGHT_outlineOffset = ''2px''"

definition HIGHLIGHT_backgroundColor :: string where
  "HIGHLIGHT_backgroundColor = ''rgba(59, 130, 246, 0.1)''"

datatype handler = HandleMouseMove | HandleClick | HandleKeyDown

type_synonym listener = "string \<times> handler"

text \<open>
  The module variables \<open>isSelecting\<close>, \<open>currentHighlighted\<close>, \<open>onSelectCallback\<close> and
  \<open>originalStyles\<close>, and the parts of the page the picker changes: the inline styles of
  the elements, the capture-phase listeners the module has on the document, the inline
  cursor of the body, and the number of click events it has cancelled
  (\<open>preventDefault\<close> and \<open>stopPropagation\<close>).  A callback is a value of type \<open>'cb\<close>.
\<close>

record 'cb picker =
  isSelecting :: bool
  currentHighlighted :: "node option"
  onSelectCallback :: "'cb option"
  originalStyles :: "node \<rightharpoonup> style"
  inline_style :: "node \<Rightarrow> style"
  listeners :: "listener list"
  body_cursor :: string
  cancelled_clicks :: nat

definition empty_style :: style where
  "empty_style = \<lparr>outline = [], outlineOffset = [], backgroundColor = [], otherProperties = []\<rparr>"

text \<open>The module as loaded: nothing selected, nothing registered.\<close>

definition idle :: "'cb picker" where
  "idle = \<lparr>isSelecting = False, currentHighlighted = None, onSelectCallback = None,
            originalStyles = Map.empty, inline_style = (\<lambda>n. empty_style), listeners = [],
            body_cursor = [], cancelled_clicks = 0\<rparr>"

text \<open>
  \<open>addEventListener\<close> ignores a listener that is already registered with the same type,
  callback and capture flag, so the list never holds a listener twice;
  \<open>removeEventListener\<close> removes the listener that matches.
\<close>

definition addEventListener :: "listener \<Rightarrow> 'cb picker \<Rightarrow> 'cb picker" where
  "addEventListener l s =
     (if l \<in> set (listeners s) then s else s\<lparr>listeners := listeners s @ [l]\<rparr>)"

definition removeEventListener :: "listener \<Rightarrow> 'cb picker \<Rightarrow> 'cb picker" where
  "removeEventListener l s = s\<lparr>listeners := removeAll l (listeners s)\<rparr>"

definition addHighlight :: "node \<Rightarrow> 'cb picker \<Rightarrow> 'cb picker" where
  "addHighlight el s =
     (let st = inline_style s el;
          s1 = s\<lparr>originalStyles := (originalStyles s)(el \<mapsto> st)\<rparr>
      in s1\<lparr>inline_style := (inline_style s1)
              (el := st\<lparr>outline := HIGHLIGHT_outline,
                        outlineOffset := HIGHLIGHT_outlineOffset,
                        backgroundColor := HIGHLIGHT_backgroundColor\<rparr>)\<rparr>)"

definition removeHighlight :: "node \<Rightarrow> 'cb picker \<Rightarrow> 'cb picker" where
  "removeHighlight el s =
     (case originalStyles s el of
        None \<Rightarrow> s
      | Some original \<Rightarrow>
          s\<lparr>inline_style := (inline_style s)
                (el := (inline_style s el)\<lparr>outline := outline original,
                                           outlineOffset := outlineOffset original,
                                           backgroundColor := backgroundColor original\<rparr>),
            originalStyles := (originalStyles s)(el := None)\<rparr>)"

definition stopSelecting :: "'cb picker \<Rightarrow> 'cb picker" where
  "stopSelecting s =
     (let s1 = s\<lparr>isSelecting := False, onSelectCallback := None\<rparr>;
          s2 = (case currentHighlighted s1 of
                  None \<Rightarrow> s1
                | Some h \<Rightarrow> (removeHighlight h s1)\<lparr>currentHighlighted := None\<rparr>);
          s3 = removeEventListener (''mousemove'', HandleMouseMove) s2;
          s4 = removeEventListener (''click'', HandleClick) s3;
          s5 = removeEventListener (''keydown'', HandleKeyDown) s4
      in s5\<lparr>body_cursor := []\<rparr>)"

definition startSelecting :: "'cb \<Rightarrow> 'cb picker \<Rightarrow> 'cb picker" where
  "startSelecting callback s =
     (let s0 = (if isSelecting s then stopSelecting s else s);
          s1 = s0\<lparr>isSelecting := True, onSelectCallback := Some callback\<rparr>;
          s2 = addEventListener (''mousemove'', HandleMouseMove) s1;
          s3 = addEventListener (''click'', HandleClick) s2;
          s4 = addEventListener (''keydown'', HandleKeyDown) s3
      in s4\<lparr>body_cursor := ''crosshair''\<rparr>)"

text \<open>\<open>target.closest("#i")\<close> is not null: the target or one of its ancestors has id \<open>i\<close>.\<close>

fun closest_id :: "element \<Rightarrow> string \<Rightarrow> node \<Rightarrow> bool" where
  "closest_id root i [] = matches_segment root (SegId i) []"
| "closest_id root i (k # p) = (matches_segment root (SegId i) (k # p) \<or> closest_id root i p)"

definition handleMouseMove :: "element \<Rightarrow> node \<Rightarrow> 'cb picker \<Rightarrow> 'cb picker" where
  "handleMouseMove root target s =
     (if closest_id root ''crxjs-app'' target then s
      else (let s1 = (case currentHighlighted s of
                        None \<Rightarrow> s
                      | Some h \<Rightarrow> if h \<noteq> target then removeHighlight h s else s)
            in if Some target \<noteq> currentHighlighted s1
               then (addHighlight target s1)\<lparr>currentHighlighted := Some target\<rparr>
               else s1))"

text \<open>
  \<open>handleClick\<close>.  Calling the callback is the parameter \<open>call\<close>: what the callback
  \<open>cb\<close> does to the picker when it is called with the selector.
\<close>

definition handleClick ::
  "(string \<Rightarrow> string) \<Rightarrow> ('cb \<Rightarrow> string \<Rightarrow> 'cb picker \<Rightarrow> 'cb picker) \<Rightarrow> element \<Rightarrow> node
     \<Rightarrow> 'cb picker \<Rightarrow> 'cb picker" where
  "handleClick esc call root target s0 =
     (let s = s0\<lparr>cancelled_clicks := cancelled_clicks s0 + 1\<rparr>
      in if closest_id root ''crxjs-app'' target then s
         else (let selector = selector_text esc (generateSelector esc root target);
                   callback = onSelectCallback s;
                   s' = stopSelecting s
               in case callback of
                    Some cb \<Rightarrow> call cb selector s'
                  | None \<Rightarrow> s'))"

definition handleKeyDown :: "string \<Rightarrow> 'cb picker \<Rightarrow> 'cb picker" where
  "handleKeyDown key s = (if key = ''Escape'' then stopSelecting s else s)"

definition picker_listeners :: "listener list" where
  "picker_listeners =
     [(''mousemove'', HandleMouseMove), (''click'', HandleClick), (''keydown'', HandleKeyDown)]"

section \<open>ElementWaiter, FieldFiller and NavigationHandoffProtocol (switcher.ts)\<close>

record fieldConfig =
  fc_id :: string
  fc_selector :: string
  fc_value :: string
  fc_label :: string

record envConfig =
  env_id :: string
  env_name :: string
  loginUrl :: string
  env_fields :: "fieldConfig list"
  env_loginButtonSelector :: "string option"

record pending_fill =
  envId :: string
  fill_fields :: "fieldConfig list"
  loginButtonSelector :: "string option"
  timestamp :: int

text \<open>
  What \<open>chrome.storage.local\<close> holds under \<open>env-switch-pending-fill\<close>:
  \<^item> \<open>NonString\<close>: a value that is not a string;
  \<^item> \<open>BadJson\<close>: a string that \<open>JSON.parse\<close> rejects;
  \<^item> \<open>JsonNull\<close>: the text \<open>null\<close>, on which reading \<open>timestamp\<close> throws;
  \<^item> \<open>Json\<close>: the JSON text of a payload, an object with a numeric \<open>timestamp\<close> and an
    array of fields;
  \<^item> \<open>JsonNoFields\<close>: the JSON text of any other value, as \<open>{}\<close> or the payload of an
    environment that was stored without \<open>fields\<close>: one whose \<open>fields\<close> cannot be iterated.
    Its argument is its \<open>timestamp\<close> when it has a numeric one; without one the age is
    \<open>NaN\<close> and the expiry test is false.
\<close>

datatype stored = NonString | BadJson | JsonNull | Json pending_fill | JsonNoFields "int option"

text \<open>
  The page the switcher runs in.  An element found by a query is described by what
  \<open>fillField\<close> reads of it: its identity, its tag name, and its first \<open>input\<close> or
  \<open>textarea\<close> descendant.  The page is a timeline: what \<open>document.querySelector\<close> gives
  for a selector at a time in milliseconds (a \<open>SyntaxError\<close> for a selector that does not
  parse), and the changes of the document tree, at which mutation observers are called
  back.  A change has its time and a flag for the case that a timer is due at the very
  same time: whether the observers are called back before that timer runs (the change was
  made by a task that was queued before the timer).  A query is taken to give the same
  result until the next change.
\<close>

record found_element =
  el_ref :: nat
  el_tagName :: string
  el_inner_input :: "nat option"

datatype query = SyntaxError | Found "found_element option"

record world =
  querySelector :: "int \<Rightarrow> string \<Rightarrow> query"
  mutations :: "(int \<times> bool) list"

datatype effect =
    Query string
  | Focus nat
  | SetValue nat string
  | Dispatch nat string
  | Click nat
  | FieldNotFound fieldConfig
  | FieldNotInput fieldConfig
  | FieldFilled fieldConfig
  | FieldFailed fieldConfig
  | LoginNotFound
  | LoginClicked
  | LoginFailed
  | AutoFillFailed
  | LocalStorageCleared
  | LocalStorageFailed
  | SessionStorageCleared
  | SessionStorageFailed
  | StorageSet pending_fill
  | StorageRemove
  | Navigate string

text \<open>
  The state the switcher acts on: the clock (\<open>Date.now()\<close>), the pending-fill entry of the
  extension store, the two page stores and whether the page may touch them, the location,
  and the effects so far, each with the time it happened.
\<close>

record state =
  now :: int
  pending :: "stored option"
  localStorage :: "(string \<times> string) list"
  sessionStorage :: "(string \<times> string) list"
  storage_blocked :: bool
  location :: string
  trace :: "(int \<times> effect) list"

definition emit :: "effect \<Rightarrow> state \<Rightarrow> state" where
  "emit e s = s\<lparr>trace := trace s @ [(now s, e)]\<rparr>"

text \<open>\<open>await new Promise((r) => setTimeout(r, ms))\<close>.\<close>

definition sleep :: "int \<Rightarrow> state \<Rightarrow> state" where
  "sleep ms s = s\<lparr>now := now s + ms\<rparr>"

datatype settled = Rejected | Resolved "found_element option"

text \<open>
  The observer and the timer of \<open>waitForElement\<close>.  \<open>delivered\<close> are the changes after
  the call whose callback runs before the timer does, in the order of their times: the
  changes before the deadline, and those at the deadline that come before the timer.  The
  first callback whose query finds the element settles the promise; otherwise the timer
  disconnects the observer at the deadline and settles it with \<open>null\<close>.
\<close>

definition delivered :: "world \<Rightarrow> int \<Rightarrow> int \<Rightarrow> (int \<times> bool) list" where
  "delivered w start deadline =
     sort_key fst
       (filter (\<lambda>m. start < fst m \<and> (fst m < deadline \<or> (fst m = deadline \<and> snd m)))
          (mutations w))"

fun observe :: "world \<Rightarrow> string \<Rightarrow> int \<Rightarrow> (int \<times> bool) list \<Rightarrow> int \<times> found_element option" where
  "observe w sel deadline [] = (deadline, None)"
| "observe w sel deadline (m # ms) =
     (case querySelector w (fst m) sel of
        Found (Some el) \<Rightarrow> (fst m, Some el)
      | _ \<Rightarrow> observe w sel deadline ms)"

definition waitForElement :: "world \<Rightarrow> string \<Rightarrow> int \<Rightarrow> state \<Rightarrow> settled \<times> state" where
  "waitForElement w sel timeout s =
     (let s1 = emit (Query sel) s
      in case querySelector w (now s) sel of
           SyntaxError \<Rightarrow> (Rejected, s1)
         | Found (Some existing) \<Rightarrow> (Resolved (Some existing), s1)
         | Found None \<Rightarrow>
             (let (t, r) = observe w sel (now s + timeout)
                             (delivered w (now s) (now s + timeout))
              in (Resolved r, s1\<lparr>now := t\<rparr>)))"

definition fillField :: "world \<Rightarrow> fieldConfig \<Rightarrow> state \<Rightarrow> bool \<times> state" where
  "fillField w field s =
     (case waitForElement w (fc_selector field) 5000 s of
        (Rejected, s1) \<Rightarrow> (False, emit (FieldFailed field) s1)
      | (Resolved None, s1) \<Rightarrow> (False, emit (FieldNotFound field) s1)
      | (Resolved (Some el), s1) \<Rightarrow>
          (let input = (if el_tagName el = ''INPUT'' \<or> el_tagName el = ''TEXTAREA''
                        then Some (el_ref el) else el_inner_input el)
           in case input of
                None \<Rightarrow> (False, emit (FieldNotInput field) s1)
              | Some i \<Rightarrow>
                  (True,
                   emit (FieldFilled field)
                     (emit (Dispatch i ''keyup'')
                       (emit (Dispatch i ''keydown'')
                         (emit (Dispatch i ''change'')
                           (emit (Dispatch i ''input'')
                             (emit (SetValue i (fc_value field))
                               (emit (Focus i) s1)))))))))"

fun fillAllFields :: "world \<Rightarrow> fieldConfig list \<Rightarrow> state \<Rightarrow> state" where
  "fillAllFields w [] s = s"
| "fillAllFields w (field # rest) s = fillAllFields w rest (sleep 100 (snd (fillField w field s)))"

definition clearLocalStorage :: "state \<Rightarrow> state" where
  "clearLocalStorage s =
     (if storage_blocked s then emit LocalStorageFailed s
      else emit LocalStorageCleared (s\<lparr>localStorage := []\<rparr>))"

definition clearSessionStorage :: "state \<Rightarrow> state" where
  "clearSessionStorage s =
     (if storage_blocked s then emit SessionStorageFailed s
      else emit SessionStorageCleared (s\<lparr>sessionStorage := []\<rparr>))"

definition storage_set :: "pending_fill \<Rightarrow> state \<Rightarrow> state" where
  "storage_set fillData s = emit (StorageSet fillData) (s\<lparr>pending := Some (Json fillData)\<rparr>)"

definition storage_remove :: "state \<Rightarrow> state" where
  "storage_remove s = emit StorageRemove (s\<lparr>pending := None\<rparr>)"

definition switchEnvironment :: "envConfig \<Rightarrow> state \<Rightarrow> state" where
  "switchEnvironment env s =
     (let fillData = \<lparr>envId = env_id env, fill_fields = env_fields env,
                      loginButtonSelector = env_loginButtonSelector env, timestamp = now s\<rparr>;
          s1 = clearLocalStorage s;
          s2 = clearSessionStorage s1;
          s3 = storage_set fillData s2
      in emit (Navigate (loginUrl env)) (s3\<lparr>location := loginUrl env\<rparr>))"

definition clickLoginButton :: "world \<Rightarrow> string \<Rightarrow> state \<Rightarrow> bool \<times> state" where
  "clickLoginButton w sel s =
     (case waitForElement w sel 5000 s of
        (Rejected, s1) \<Rightarrow> (False, emit LoginFailed s1)
      | (Resolved None, s1) \<Rightarrow> (False, emit LoginNotFound s1)
      | (Resolved (Some el), s1) \<Rightarrow> (True, emit LoginClicked (emit (Click (el_ref el)) s1)))"

text \<open>
  The body of \<open>checkAndFillPending\<close> after the expiry check: settle delay, fill, removal of
  the payload, and the click on the login button when a selector is configured.
\<close>

definition applyPending :: "world \<Rightarrow> pending_fill \<Rightarrow> state \<Rightarrow> state" where
  "applyPending w fillData s =
     (let s1 = sleep 500 s;
          s2 = fillAllFields w (fill_fields fillData) s1;
          s3 = storage_remove s2
      in case loginButtonSelector fillData of
           None \<Rightarrow> s3
         | Some sel \<Rightarrow> if sel = [] then s3 else snd (clickLoginButton w sel (sleep 300 s3)))"

definition checkAndFillPending :: "world \<Rightarrow> state \<Rightarrow> state" where
  "checkAndFillPending w s =
     (case pending s of
        None \<Rightarrow> s
      | Some NonString \<Rightarrow> s
      | Some BadJson \<Rightarrow> emit AutoFillFailed s
      | Some JsonNull \<Rightarrow> emit AutoFillFailed s
      | Some (JsonNoFields ts) \<Rightarrow>
          if (case ts of None \<Rightarrow> False | Some t \<Rightarrow> now s - t > 10000) then storage_remove s
          else emit AutoFillFailed (sleep 500 s)
      | Some (Json fillData) \<Rightarrow>
          if now s - timestamp fillData > 10000 then storage_remove s
          else applyPending w fillData s)"

subsection \<open>Reading a trace\<close>

definition new_effects :: "state \<Rightarrow> state \<Rightarrow> (int \<times> effect) list" where
  "new_effects s s' = drop (length (trace s)) (trace s')"

fun field_outcome :: "effect \<Rightarrow> fieldConfig option" where
  "field_outcome (FieldNotFound f) = Some f"
| "field_outcome (FieldNotInput f) = Some f"
| "field_outcome (FieldFilled f) = Some f"
| "field_outcome (FieldFailed f) = Some f"
| "field_outcome _ = None"

text \<open>The fields that were attempted, in the order their outcomes were recorded.\<close>

fun attempted :: "(int \<times> effect) list \<Rightarrow> fieldConfig list" where
  "attempted [] = []"
| "attempted ((t, e) # tr) =
     (case field_outcome e of None \<Rightarrow> attempted tr | Some f \<Rightarrow> f # attempted tr)"

fun is_query :: "effect \<Rightarrow> bool" where
  "is_query (Query sel) = True"
| "is_query _ = False"

fun is_click :: "effect \<Rightarrow> bool" where
  "is_click (Click i) = True"
| "is_click _ = False"

fun is_fill_effect :: "effect \<Rightarrow> bool" where
  "is_fill_effect (Focus i) = True"
| "is_fill_effect (SetValue i v) = True"
| "is_fill_effect (Dispatch i ev) = True"
| "is_fill_effect e = (field_outcome e \<noteq> None)"

text \<open>
  \<open>spaced d tr\<close>: whatever follows the outcome of a field in \<open>tr\<close> is a query issued
  exactly \<open>d\<close> milliseconds after that outcome.
\<close>

fun spaced :: "int \<Rightarrow> (int \<times> effect) list \<Rightarrow> bool" where
  "spaced d ((t, e) # (t', e') # rest) =
     ((field_outcome e \<noteq> None \<longrightarrow> t' = t + d \<and> is_query e') \<and> spaced d ((t', e') # rest))"
| "spaced d tr = True"

section \<open>Example pages\<close>

definition esc_id :: "string \<Rightarrow> string" where
  "esc_id v = v"

definition plain_page :: element where
  "plain_page =
     Element ''HTML'' [] []
       [Element ''HEAD'' [] [] [],
        Element ''BODY'' [] []
          [Element ''DIV'' [] [] [Element ''P'' [] [] [], Element ''P'' [] [] []],
           Element ''SPAN'' [] [] []]]"


definition field_user :: fieldConfig where
  "field_user = \<lparr>fc_id = ''1'', fc_selector = ''#user'', fc_value = ''alice'', fc_label = ''User''\<rparr>"

definition field_bad :: fieldConfig where
  "field_bad = \<lparr>fc_id = ''2'', fc_selector = ''['', fc_value = ''x'', fc_label = ''Bad''\<rparr>"

definition field_missing :: fieldConfig where
  "field_missing =
     \<lparr>fc_id = ''3'', fc_selector = ''#none'', fc_value = ''y'', fc_label = ''Missing''\<rparr>"

text \<open>
  A login page whose \<open>#user\<close> input appears 700 ms after the load, whose \<open>#btn\<close> is there
  from the start, and which has nothing for any other selector; \<open>[\<close> does not parse.
  \<open>late_page\<close> adds its \<open>#late\<close> input 5,000 ms after the load, in a task that was
  queued before any timer of the extension.
\<close>

definition login_page :: world where
  "login_page =
     \<lparr>querySelector =
        (\<lambda>t sel.
           if sel = ''['' then SyntaxError
           else if sel = ''#user''
           then (if t < 700 then Found None
                 else Found (Some \<lparr>el_ref = 1, el_tagName = ''INPUT'', el_inner_input = None\<rparr>))
           else if sel = ''#btn''
           then Found (Some \<lparr>el_ref = 2, el_tagName = ''BUTTON'', el_inner_input = None\<rparr>)
           else Found None),
      mutations = [(300, False), (700, False), (900, False)]\<rparr>"


definition example_payload :: pending_fill where
  "example_payload =
     \<lparr>envId = ''env'', fill_fields = [field_user, field_bad, field_missing],
      loginButtonSelector = Some ''#btn'', timestamp = 0\<rparr>"

definition page_load :: "int \<Rightarrow> stored option \<Rightarrow> state" where
  "page_load t p =
     \<lparr>now = t, pending = p, localStorage = [(''token'', ''abc'')],
      sessionStorage = [(''sid'', ''1'')], storage_blocked = False,
      location = ''https://app.example.com/'', trace = []\<rparr>"

definition example_env :: envConfig where
  "example_env =
     \<lparr>env_id = ''env'', env_name = ''staging'', loginUrl = ''https://staging.example.com/login'',
      env_fields = [field_user], env_loginButtonSelector = Some ''#btn''\<rparr>"

text \<open>
  A picker that was started with callback \<open>7\<close> and hovers over the first \<open>p\<close> of
  \<open>plain_page\<close>, and a callback that starts the next selection when it is called.
\<close>

definition hovering :: "nat picker" where
  "hovering = handleMouseMove plain_page [0, 0, 1] (startSelecting 7 idle)"

definition restart :: "nat \<Rightarrow> string \<Rightarrow> nat picker \<Rightarrow> nat picker" where
  "restart cb sel s = startSelecting (Suc cb) s"

section \<open>Verification\<close>

subsection \<open>DomainMatcher\<close>

lemma startsWith_prefix: "startsWith s p = prefix p s"
  by (auto simp: startsWith_def prefix_def) (metis append_eq_conv_conj)

lemma endsWith_suffix: "endsWith s q = suffix q s"
proof
  assume "endsWith s q"
  then have "s = take (length s - length q) s @ q"
    by (metis append_take_drop_id endsWith_def)
  then show "suffix q s" by (metis suffixI)
next
  assume "suffix q s"
  then obtain r where "s = r @ q" by (auto simp: suffix_def)
  then show "endsWith s q" by (simp add: endsWith_def)
qed

lemma is_white_space_lower: "is_white_space (toLowerCase_char c) = is_white_space c"
  by (auto simp: is_white_space_def toLowerCase_char_def Let_def)

lemma toLowerCase_dropWhile:
  "toLowerCase (dropWhile is_white_space s) = dropWhile is_white_space (toLowerCase s)"
  by (induction s) (simp_all add: toLowerCase_def is_white_space_lower)

lemma toLowerCase_rev: "toLowerCase (rev s) = rev (toLowerCase s)"
  by (simp add: toLowerCase_def rev_map)

lemma toLowerCase_trim: "toLowerCase (trim s) = trim (toLowerCase s)"
  by (simp add: trim_def toLowerCase_rev toLowerCase_dropWhile)

lemma matchDomain_char:
  "matchDomain h p \<longleftrightarrow>
     (if prefix ''*.'' (toLowerCase (trim p))
      then toLowerCase h = drop 2 (toLowerCase (trim p))
           \<or> (\<exists>sub. toLowerCase h = sub @ ''.'' @ drop 2 (toLowerCase (trim p)))
      else toLowerCase h = toLowerCase (trim p))"
  unfolding matchDomain_def Let_def startsWith_prefix endsWith_suffix slice_def
  by (auto simp: suffix_def)

lemma matchDomain_case_insensitive:
  assumes "toLowerCase h = toLowerCase h'" and "toLowerCase p = toLowerCase p'"
  shows "matchDomain h p = matchDomain h' p'"
  using assms by (simp add: matchDomain_def toLowerCase_trim)

text \<open>
  C6.  \<open>isCurrentDomainAllowed\<close> allows every host name when the pattern list is absent or
  empty.  With a non-empty list it allows the host name exactly when some pattern matches.
  A pattern is trimmed and lower-cased and the host name is lower-cased; a pattern that
  then starts with \<open>*.\<close> matches when the host name is the remainder or ends with a dot
  followed by the remainder, and any other pattern matches when the host name equals it.
  Matching does not depend on the case of either side.  \<open>*.example.com\<close> matches
  \<open>a.example.com\<close>, \<open>example.com\<close> and \<open>x.y.example.com\<close> and does not match
  \<open>notexample.com\<close>.
\<close>

theorem isCurrentDomainAllowed_spec:
  "isCurrentDomainAllowed h None
   \<and> isCurrentDomainAllowed h (Some [])
   \<and> (ps \<noteq> [] \<longrightarrow> isCurrentDomainAllowed h (Some ps) = (\<exists>p \<in> set ps. matchDomain h p))
   \<and> (matchDomain h p \<longleftrightarrow>
        (if prefix ''*.'' (toLowerCase (trim p))
         then toLowerCase h = drop 2 (toLowerCase (trim p))
              \<or> (\<exists>sub. toLowerCase h = sub @ ''.'' @ drop 2 (toLowerCase (trim p)))
         else toLowerCase h = toLowerCase (trim p)))
   \<and> (toLowerCase h = toLowerCase h' \<and> toLowerCase p = toLowerCase p'
        \<longrightarrow> matchDomain h p = matchDomain h' p')
   \<and> matchDomain ''a.example.com'' ''*.example.com''
   \<and> matchDomain ''example.com'' ''*.example.com''
   \<and> matchDomain ''x.y.example.com'' ''*.example.com''
   \<and> \<not> matchDomain ''notexample.com'' ''*.example.com''"
proof -
  have a: "isCurrentDomainAllowed h None" "isCurrentDomainAllowed h (Some [])"
    by (simp_all add: isCurrentDomainAllowed_def)
  have b: "ps \<noteq> [] \<longrightarrow> isCurrentDomainAllowed h (Some ps) = (\<exists>p \<in> set ps. matchDomain h p)"
    by (simp add: isCurrentDomainAllowed_def list_ex_iff)
  have c: "toLowerCase h = toLowerCase h' \<and> toLowerCase p = toLowerCase p'
        \<longrightarrow> matchDomain h p = matchDomain h' p'"
    using matchDomain_case_insensitive by blast
  have d: "matchDomain ''a.example.com'' ''*.example.com''"
    "matchDomain ''example.com'' ''*.example.com''"
    "matchDomain ''x.y.example.com'' ''*.example.com''"
    "\<not> matchDomain ''notexample.com'' ''*.example.com''"
    by code_simp+
  show ?thesis
    using a b c d matchDomain_char [of h p] by blast
qed

theorem isCurrentDomainAllowed_spec_witness:
  "[''example.org'', '' *.Example.COM''] \<noteq> []
   \<and> isCurrentDomainAllowed ''a.example.com'' (Some [''example.org'', '' *.Example.COM''])
   \<and> matchDomain ''a.example.com'' '' *.Example.COM''
   \<and> prefix ''*.'' (toLowerCase (trim '' *.Example.COM''))
   \<and> toLowerCase ''A.EXAMPLE.com'' = toLowerCase ''a.example.com''
   \<and> matchDomain ''A.EXAMPLE.com'' '' *.Example.COM''"
proof -
  have m: "matchDomain ''a.example.com'' '' *.Example.COM''" by code_simp
  have l: "toLowerCase ''a.example.com'' = toLowerCase ''A.EXAMPLE.com''" by code_simp
  have p: "prefix ''*.'' (toLowerCase (trim '' *.Example.COM''))" by code_simp
  from isCurrentDomainAllowed_spec
    [of "''a.example.com''" "[''example.org'', '' *.Example.COM'']" "'' *.Example.COM''"
        "''A.EXAMPLE.com''" "'' *.Example.COM''"]
  show ?thesis using m l p by auto
qed

subsection \<open>SelectorSynthesizer\<close>










































subsection \<open>InteractivePicker\<close>

lemma removeHighlight_fields [simp]:
  "isSelecting (removeHighlight h s) = isSelecting s"
  "currentHighlighted (removeHighlight h s) = currentHighlighted s"
  "onSelectCallback (removeHighlight h s) = onSelectCallback s"
  "listeners (removeHighlight h s) = listeners s"
  "body_cursor (removeHighlight h s) = body_cursor s"
  "cancelled_clicks (removeHighlight h s) = cancelled_clicks s"
  by (simp_all add: removeHighlight_def split: option.splits)

lemma addHighlight_fields [simp]:
  "isSelecting (addHighlight h s) = isSelecting s"
  "currentHighlighted (addHighlight h s) = currentHighlighted s"
  "onSelectCallback (addHighlight h s) = onSelectCallback s"
  "listeners (addHighlight h s) = listeners s"
  "body_cursor (addHighlight h s) = body_cursor s"
  "cancelled_clicks (addHighlight h s) = cancelled_clicks s"
  by (simp_all add: addHighlight_def Let_def)

lemma stopSelecting_fields:
  "isSelecting (stopSelecting s) = False"
  "currentHighlighted (stopSelecting s) = None"
  "onSelectCallback (stopSelecting s) = None"
  "listeners (stopSelecting s) =
     removeAll (''keydown'', HandleKeyDown)
       (removeAll (''click'', HandleClick)
          (removeAll (''mousemove'', HandleMouseMove) (listeners s)))"
  "body_cursor (stopSelecting s) = []"
  "cancelled_clicks (stopSelecting s) = cancelled_clicks s"
  by (simp_all add: stopSelecting_def removeEventListener_def Let_def split: option.splits)

lemma stopSelecting_styles:
  "inline_style (stopSelecting s) =
     (case currentHighlighted s of None \<Rightarrow> inline_style s
      | Some h \<Rightarrow> inline_style (removeHighlight h s))"
  "originalStyles (stopSelecting s) =
     (case currentHighlighted s of None \<Rightarrow> originalStyles s
      | Some h \<Rightarrow> (originalStyles s)(h := None))"
  by (auto simp: stopSelecting_def removeEventListener_def removeHighlight_def Let_def
           split: option.splits)

lemma stopSelecting_no_listeners:
  "set (listeners (stopSelecting s)) \<inter> set picker_listeners = {}"
  by (auto simp: stopSelecting_fields picker_listeners_def)

lemma stopSelecting_idem: "stopSelecting (stopSelecting s) = stopSelecting s"
  by (simp add: stopSelecting_def removeEventListener_def removeHighlight_def Let_def
           split: option.splits)

lemma stopSelecting_idle: "stopSelecting idle = idle"
  by (simp add: stopSelecting_def removeEventListener_def Let_def idle_def)

lemma stopSelecting_restores:
  assumes "currentHighlighted s = Some h" and "originalStyles s h = Some st"
  shows "outline (inline_style (stopSelecting s) h) = outline st
         \<and> outlineOffset (inline_style (stopSelecting s) h) = outlineOffset st
         \<and> backgroundColor (inline_style (stopSelecting s) h) = backgroundColor st
         \<and> originalStyles (stopSelecting s) h = None"
  using assms by (simp add: stopSelecting_styles removeHighlight_def)

lemma addEventListener_fields [simp]:
  "isSelecting (addEventListener l s) = isSelecting s"
  "onSelectCallback (addEventListener l s) = onSelectCallback s"
  by (simp_all add: addEventListener_def)

lemma addEventListener_distinct:
  "distinct (listeners s) \<Longrightarrow> distinct (listeners (addEventListener l s))"
  by (simp add: addEventListener_def)

lemma addEventListener_set:
  "set (listeners (addEventListener l s)) = insert l (set (listeners s))"
  by (auto simp: addEventListener_def)

lemma stopSelecting_distinct:
  "distinct (listeners s) \<Longrightarrow> distinct (listeners (stopSelecting s))"
  by (simp add: stopSelecting_fields distinct_removeAll)

lemma startSelecting_restart:
  "isSelecting s \<Longrightarrow> startSelecting cb s = startSelecting cb (stopSelecting s)"
  by (simp add: startSelecting_def stopSelecting_fields)

lemma startSelecting_fields:
  "isSelecting (startSelecting cb s)"
  "onSelectCallback (startSelecting cb s) = Some cb"
  "body_cursor (startSelecting cb s) = ''crosshair''"
  by (simp_all add: startSelecting_def Let_def)

lemma startSelecting_listeners:
  "set picker_listeners \<subseteq> set (listeners (startSelecting cb s))"
  "distinct (listeners s) \<Longrightarrow> distinct (listeners (startSelecting cb s))"
proof -
  define s0 where "s0 = (if isSelecting s then stopSelecting s else s)"
  define s1 where "s1 = s0\<lparr>isSelecting := True, onSelectCallback := Some cb\<rparr>"
  have l: "listeners (startSelecting cb s) =
     listeners (addEventListener (''keydown'', HandleKeyDown)
        (addEventListener (''click'', HandleClick)
           (addEventListener (''mousemove'', HandleMouseMove) s1)))"
    by (simp add: startSelecting_def Let_def s0_def s1_def)
  show "set picker_listeners \<subseteq> set (listeners (startSelecting cb s))"
    unfolding l by (simp add: addEventListener_set picker_listeners_def)
  assume "distinct (listeners s)"
  then have "distinct (listeners s1)"
    by (simp add: s1_def s0_def stopSelecting_distinct)
  then show "distinct (listeners (startSelecting cb s))"
    unfolding l by (intro addEventListener_distinct)
qed

lemma handleClick_outside:
  assumes "\<not> closest_id root ''crxjs-app'' target"
  shows "handleClick esc call root target s =
    (case onSelectCallback s of
       None \<Rightarrow> stopSelecting (s\<lparr>cancelled_clicks := cancelled_clicks s + 1\<rparr>)
     | Some cb \<Rightarrow> call cb (selector_text esc (generateSelector esc root target))
                   (stopSelecting (s\<lparr>cancelled_clicks := cancelled_clicks s + 1\<rparr>)))"
  using assms by (simp add: handleClick_def Let_def split: option.splits)



text \<open>
  C7.  A click on an element outside the subtree of \<open>#crxjs-app\<close> stops selecting first
  and calls the registered callback, with the synthesized selector, on the stopped picker;
  without a registered callback it only stops.  Escape stops the picker and calls nothing.
  \<open>startSelecting\<close> on a selecting picker is \<open>startSelecting\<close> on the stopped picker; after
  it the picker is selecting with the new callback and its three listeners are registered,
  none of them twice.  A stopped picker is not selecting, has no callback, no highlighted
  element, none of the three listeners and an empty inline cursor on the body, and the
  element that was highlighted has its saved \<open>outline\<close>, \<open>outline-offset\<close> and
  \<open>background-color\<close> back.  Stopping twice is stopping once, and stopping the idle picker
  changes nothing.
\<close>

theorem picker_state_machine:
  "(\<not> closest_id root ''crxjs-app'' target \<longrightarrow>
      handleClick esc call root target s =
        (case onSelectCallback s of
           None \<Rightarrow> stopSelecting (s\<lparr>cancelled_clicks := cancelled_clicks s + 1\<rparr>)
         | Some cb \<Rightarrow> call cb (selector_text esc (generateSelector esc root target))
                       (stopSelecting (s\<lparr>cancelled_clicks := cancelled_clicks s + 1\<rparr>))))
   \<and> handleKeyDown ''Escape'' s = stopSelecting s
   \<and> (isSelecting s \<longrightarrow> startSelecting cb' s = startSelecting cb' (stopSelecting s))
   \<and> isSelecting (startSelecting cb' s)
   \<and> onSelectCallback (startSelecting cb' s) = Some cb'
   \<and> set picker_listeners \<subseteq> set (listeners (startSelecting cb' s))
   \<and> (distinct (listeners s) \<longrightarrow> distinct (listeners (startSelecting cb' s)))
   \<and> \<not> isSelecting (stopSelecting s)
   \<and> onSelectCallback (stopSelecting s) = None
   \<and> currentHighlighted (stopSelecting s) = None
   \<and> set (listeners (stopSelecting s)) \<inter> set picker_listeners = {}
   \<and> body_cursor (stopSelecting s) = []
   \<and> (currentHighlighted s = Some h \<and> originalStyles s h = Some st \<longrightarrow>
        outline (inline_style (stopSelecting s) h) = outline st
        \<and> outlineOffset (inline_style (stopSelecting s) h) = outlineOffset st
        \<and> backgroundColor (inline_style (stopSelecting s) h) = backgroundColor st
        \<and> originalStyles (stopSelecting s) h = None)
   \<and> stopSelecting (stopSelecting s) = stopSelecting s
   \<and> stopSelecting idle = (idle :: 'a picker)"
proof -
  have click: "\<not> closest_id root ''crxjs-app'' target \<longrightarrow>
      handleClick esc call root target s =
        (case onSelectCallback s of
           None \<Rightarrow> stopSelecting (s\<lparr>cancelled_clicks := cancelled_clicks s + 1\<rparr>)
         | Some cb \<Rightarrow> call cb (selector_text esc (generateSelector esc root target))
                       (stopSelecting (s\<lparr>cancelled_clicks := cancelled_clicks s + 1\<rparr>)))"
    by (rule impI) (rule handleClick_outside)
  have esc: "handleKeyDown ''Escape'' s = stopSelecting s"
    by (simp add: handleKeyDown_def)
  have again: "isSelecting s \<longrightarrow> startSelecting cb' s = startSelecting cb' (stopSelecting s)"
    by (rule impI) (rule startSelecting_restart)
  have dist: "distinct (listeners s) \<longrightarrow> distinct (listeners (startSelecting cb' s))"
    by (rule impI) (rule startSelecting_listeners(2))
  have restore: "currentHighlighted s = Some h \<and> originalStyles s h = Some st \<longrightarrow>
        outline (inline_style (stopSelecting s) h) = outline st
        \<and> outlineOffset (inline_style (stopSelecting s) h) = outlineOffset st
        \<and> backgroundColor (inline_style (stopSelecting s) h) = backgroundColor st
        \<and> originalStyles (stopSelecting s) h = None"
    by (rule impI, erule conjE, rule stopSelecting_restores)
  show ?thesis
    using click esc again dist restore
      startSelecting_fields(1,2) [of cb' s] startSelecting_listeners(1) [of cb' s]
      stopSelecting_fields(1,2,3,5) [of s] stopSelecting_no_listeners [of s]
      stopSelecting_idem [of s] stopSelecting_idle
    by (intro conjI) simp_all
qed

theorem picker_state_machine_witness:
  "\<not> closest_id plain_page ''crxjs-app'' [0, 0, 1]
   \<and> isSelecting hovering
   \<and> distinct (listeners hovering)
   \<and> currentHighlighted hovering = Some [0, 0, 1]
   \<and> originalStyles hovering [0, 0, 1] = Some empty_style
   \<and> onSelectCallback hovering = Some 7
   \<and> handleClick esc_id restart plain_page [0, 0, 1] hovering
       = restart 7 ''div > p:nth-child(1)''
           (stopSelecting (hovering\<lparr>cancelled_clicks := cancelled_clicks hovering + 1\<rparr>))
   \<and> startSelecting 8 hovering = startSelecting 8 (stopSelecting hovering)
   \<and> distinct (listeners (startSelecting 8 hovering))
   \<and> outline (inline_style hovering [0, 0, 1]) = ''2px solid #3b82f6''
   \<and> outline (inline_style (stopSelecting hovering) [0, 0, 1]) = []
   \<and> originalStyles (stopSelecting hovering) [0, 0, 1] = None"
proof -
  have h1: "\<not> closest_id plain_page ''crxjs-app'' [0, 0, 1]" by code_simp
  have h2: "isSelecting hovering \<and> distinct (listeners hovering)
            \<and> currentHighlighted hovering = Some [0, 0, 1]
            \<and> originalStyles hovering [0, 0, 1] = Some empty_style
            \<and> onSelectCallback hovering = Some 7
            \<and> outline (inline_style hovering [0, 0, 1]) = ''2px solid #3b82f6''"
    by code_simp
  have h3: "selector_text esc_id (generateSelector esc_id plain_page [0, 0, 1])
              = ''div > p:nth-child(1)''"
    by code_simp
  have h4: "outline empty_style = []" by (simp add: empty_style_def)
  note sm = picker_state_machine
         [of plain_page "[0, 0, 1]" esc_id restart hovering 8 "[0, 0, 1]" empty_style]
  have "handleClick esc_id restart plain_page [0, 0, 1] hovering =
        (case onSelectCallback hovering of
           None \<Rightarrow> stopSelecting (hovering\<lparr>cancelled_clicks := cancelled_clicks hovering + 1\<rparr>)
         | Some cb \<Rightarrow> restart cb (selector_text esc_id (generateSelector esc_id plain_page [0, 0, 1]))
                       (stopSelecting (hovering\<lparr>cancelled_clicks := cancelled_clicks hovering + 1\<rparr>)))"
    using sm h1 by blast
  then have c1: "handleClick esc_id restart plain_page [0, 0, 1] hovering
       = restart 7 ''div > p:nth-child(1)''
           (stopSelecting (hovering\<lparr>cancelled_clicks := cancelled_clicks hovering + 1\<rparr>))"
    using h2 h3 by (simp only: option.case)
  have c2: "startSelecting 8 hovering = startSelecting 8 (stopSelecting hovering)"
    using sm h2 by blast
  have c3: "distinct (listeners (startSelecting 8 hovering))"
    using sm h2 by blast
  have "outline (inline_style (stopSelecting hovering) [0, 0, 1]) = outline empty_style
        \<and> originalStyles (stopSelecting hovering) [0, 0, 1] = None"
    using sm h2 by blast
  then have c4: "outline (inline_style (stopSelecting hovering) [0, 0, 1]) = []
        \<and> originalStyles (stopSelecting hovering) [0, 0, 1] = None"
    using h4 by (simp only:)
  show ?thesis using h1 h2 c1 c2 c3 c4 by blast
qed

subsection \<open>ElementWaiter, FieldFiller and NavigationHandoffProtocol\<close>

lemma emit_fields [simp]:
  "trace (emit e s) = trace s @ [(now s, e)]"
  "now (emit e s) = now s"
  "pending (emit e s) = pending s"
  "localStorage (emit e s) = localStorage s"
  "sessionStorage (emit e s) = sessionStorage s"
  "storage_blocked (emit e s) = storage_blocked s"
  "location (emit e s) = location s"
  by (simp_all add: emit_def)

lemma sleep_fields [simp]:
  "trace (sleep ms s) = trace s"
  "now (sleep ms s) = now s + ms"
  "pending (sleep ms s) = pending s"
  by (simp_all add: sleep_def)

lemma storage_remove_fields [simp]:
  "trace (storage_remove s) = trace s @ [(now s, StorageRemove)]"
  "now (storage_remove s) = now s"
  "pending (storage_remove s) = None"
  by (simp_all add: storage_remove_def)

lemma delivered_set:
  "set (delivered w start deadline) =
     {m \<in> set (mutations w). start < fst m \<and> (fst m < deadline \<or> (fst m = deadline \<and> snd m))}"
  by (auto simp: delivered_def)

lemma delivered_sorted: "sorted (map fst (delivered w start deadline))"
  by (simp add: delivered_def)

lemma observe_None:
  "snd (observe w sel deadline ms) = None \<longleftrightarrow>
     (\<forall>m \<in> set ms. \<forall>el. querySelector w (fst m) sel \<noteq> Found (Some el))"
proof (induction ms)
  case Nil
  show ?case by simp
next
  case (Cons m ms)
  show ?case
  proof (cases "querySelector w (fst m) sel")
    case SyntaxError
    with Cons show ?thesis by simp
  next
    case (Found x)
    with Cons show ?thesis by (cases x) auto
  qed
qed

lemma observe_None_time: "snd (observe w sel deadline ms) = None \<Longrightarrow> fst (observe w sel deadline ms) = deadline"
proof (induction ms)
  case Nil
  show ?case by simp
next
  case (Cons m ms)
  show ?case
  proof (cases "querySelector w (fst m) sel")
    case SyntaxError
    with Cons show ?thesis by simp
  next
    case (Found x)
    with Cons show ?thesis by (cases x) auto
  qed
qed

lemma observe_Some:
  assumes "observe w sel deadline ms = (t, Some el)"
  shows "\<exists>pre m post. ms = pre @ m # post \<and> fst m = t
           \<and> querySelector w t sel = Found (Some el)
           \<and> (\<forall>m' \<in> set pre. \<forall>el'. querySelector w (fst m') sel \<noteq> Found (Some el'))"
  using assms
proof (induction ms)
  case Nil
  then show ?case by simp
next
  case (Cons m ms)
  show ?case
  proof (cases "\<exists>el'. querySelector w (fst m) sel = Found (Some el')")
    case True
    then obtain el' where q: "querySelector w (fst m) sel = Found (Some el')" by blast
    with Cons.prems have "fst m = t" "el' = el" by simp_all
    with q show ?thesis by (intro exI [of _ "[]"] exI [of _ m] exI [of _ ms]) simp
  next
    case False
    then have "observe w sel deadline (m # ms) = observe w sel deadline ms"
      by (cases "querySelector w (fst m) sel"; cases "case querySelector w (fst m) sel of Found x \<Rightarrow> x | _ \<Rightarrow> None")
         (auto split: query.splits option.splits)
    with Cons obtain pre m' post where p: "ms = pre @ m' # post" "fst m' = t"
      "querySelector w t sel = Found (Some el)"
      "\<forall>m' \<in> set pre. \<forall>el'. querySelector w (fst m') sel \<noteq> Found (Some el')"
      by auto
    show ?thesis
      using p False by (intro exI [of _ "m # pre"] exI [of _ m'] exI [of _ post]) auto
  qed
qed

lemma sorted_before:
  assumes "sorted (map fst (pre @ m # post))" and "m' \<in> set (pre @ m # post)" and "fst m' < fst m"
  shows "m' \<in> set pre"
  using assms by (auto simp: sorted_append)



lemma waitForElement_waits:
  assumes "querySelector w (now s) sel = Found None"
  shows "\<exists>r t. waitForElement w sel timeout s = (Resolved r, (emit (Query sel) s)\<lparr>now := t\<rparr>)
           \<and> (case r of
                 None \<Rightarrow> t = now s + timeout
                   \<and> (\<forall>m \<in> set (delivered w (now s) (now s + timeout)).
                         \<forall>el'. querySelector w (fst m) sel \<noteq> Found (Some el'))
               | Some el \<Rightarrow> now s < t \<and> t \<le> now s + timeout \<and> t \<in> fst ` set (mutations w)
                   \<and> querySelector w t sel = Found (Some el)
                   \<and> (\<forall>m \<in> set (delivered w (now s) (now s + timeout)).
                         fst m < t \<longrightarrow> (\<forall>el'. querySelector w (fst m) sel \<noteq> Found (Some el'))))"
proof -
  define ms where "ms = delivered w (now s) (now s + timeout)"
  obtain t r where o: "observe w sel (now s + timeout) ms = (t, r)"
    by (cases "observe w sel (now s + timeout) ms")
  have wf: "waitForElement w sel timeout s = (Resolved r, (emit (Query sel) s)\<lparr>now := t\<rparr>)"
    using assms o by (simp add: waitForElement_def ms_def)
  show ?thesis
  proof (cases r)
    case None
    have "t = now s + timeout"
      using observe_None_time [of w sel "now s + timeout" ms] o None by simp
    moreover have "\<forall>m \<in> set ms. \<forall>el'. querySelector w (fst m) sel \<noteq> Found (Some el')"
      using observe_None [of w sel "now s + timeout" ms] o None by simp
    ultimately show ?thesis using wf None unfolding ms_def
      by (intro exI [of _ r] exI [of _ t]) simp
  next
    case (Some el)
    from observe_Some [OF o [unfolded Some]] obtain pre m post where
      p: "ms = pre @ m # post" "fst m = t" "querySelector w t sel = Found (Some el)"
         "\<forall>m' \<in> set pre. \<forall>el'. querySelector w (fst m') sel \<noteq> Found (Some el')"
      by blast
    have "m \<in> set ms" using p(1) by simp
    then have m: "m \<in> set (mutations w)" "now s < fst m" "fst m \<le> now s + timeout"
      unfolding ms_def delivered_set by auto
    have srt: "sorted (map fst (pre @ m # post))"
      using delivered_sorted [of w "now s" "now s + timeout"] p(1) unfolding ms_def by simp
    have first: "\<forall>m' \<in> set ms. fst m' < t \<longrightarrow> (\<forall>el'. querySelector w (fst m') sel \<noteq> Found (Some el'))"
    proof (intro ballI impI)
      fix m' assume "m' \<in> set ms" "fst m' < t"
      then have "m' \<in> set pre"
        using sorted_before [OF srt, of m'] p(1,2) by simp
      then show "\<forall>el'. querySelector w (fst m') sel \<noteq> Found (Some el')" using p(4) by blast
    qed
    have "t \<in> fst ` set (mutations w)" using m(1) p(2) by force
    then show ?thesis
      using wf Some p(2,3) m(2,3) first unfolding ms_def
      by (intro exI [of _ r] exI [of _ t]) simp
  qed
qed


lemma waitForElement_shape:
  assumes "0 \<le> timeout"
  shows "\<exists>r t. waitForElement w sel timeout s = (r, (emit (Query sel) s)\<lparr>now := t\<rparr>) \<and> now s \<le> t"
proof (cases "querySelector w (now s) sel")
  case SyntaxError
  then have "waitForElement w sel timeout s = (Rejected, (emit (Query sel) s)\<lparr>now := now s\<rparr>)"
    by (simp add: waitForElement_def emit_def)
  then show ?thesis by force
next
  case (Found x)
  show ?thesis
  proof (cases x)
    case None
    with Found waitForElement_waits [of w s sel timeout]
    obtain r t where w: "waitForElement w sel timeout s = (Resolved r, (emit (Query sel) s)\<lparr>now := t\<rparr>)"
      and c: "case r of None \<Rightarrow> t = now s + timeout | Some el \<Rightarrow> now s < t"
      by (auto split: option.splits)
    have "now s \<le> t" using c assms by (cases r) auto
    with w show ?thesis by blast
  next
    case (Some el)
    with Found have "waitForElement w sel timeout s = (Resolved (Some el), (emit (Query sel) s)\<lparr>now := now s\<rparr>)"
      by (simp add: waitForElement_def emit_def)
    then show ?thesis by force
  qed
qed

lemma attempted_append: "attempted (xs @ ys) = attempted xs @ attempted ys"
  by (induction xs rule: attempted.induct) (auto split: option.splits)

lemma attempted_none:
  "\<forall>x \<in> set xs. field_outcome (snd x) = None \<Longrightarrow> attempted xs = []"
  by (induction xs rule: attempted.induct) auto

lemma spaced_no_outcome:
  "\<forall>x \<in> set (butlast xs). field_outcome (snd x) = None \<Longrightarrow> spaced d xs"
  by (induction d xs rule: spaced.induct) auto

lemma spaced_append:
  assumes "spaced d xs" and "spaced d ys"
    and "xs \<noteq> [] \<Longrightarrow> ys \<noteq> [] \<Longrightarrow> field_outcome (snd (last xs)) \<noteq> None \<Longrightarrow>
           fst (hd ys) = fst (last xs) + d \<and> is_query (snd (hd ys))"
  shows "spaced d (xs @ ys)"
  using assms
proof (induction xs)
  case Nil
  then show ?case by simp
next
  case (Cons x xs)
  show ?case
  proof (cases xs)
    case Nil
    with Cons.prems show ?thesis by (cases x; cases ys) auto
  next
    case (Cons y zs)
    with Cons.IH Cons.prems show ?thesis by (cases x; cases y) auto
  qed
qed

text \<open>One call of fillField: a query, the effects on the control, one outcome.\<close>

lemma fillField_shape:
  "\<exists>mid e. trace (snd (fillField w f s))
              = trace s @ (now s, Query (fc_selector f)) # mid @ [(now (snd (fillField w f s)), e)]
     \<and> field_outcome e = Some f
     \<and> (\<forall>x \<in> set mid. field_outcome (snd x) = None \<and> is_fill_effect (snd x))
     \<and> now s \<le> now (snd (fillField w f s))
     \<and> pending (snd (fillField w f s)) = pending s"
proof -
  obtain r t where wf: "waitForElement w (fc_selector f) 5000 s
      = (r, (emit (Query (fc_selector f)) s)\<lparr>now := t\<rparr>)" and t: "now s \<le> t"
    using waitForElement_shape [of 5000 w "fc_selector f" s] by auto
  show ?thesis
  proof (cases r)
    case Rejected
    with wf t show ?thesis by (simp add: fillField_def emit_def)
  next
    case (Resolved x)
    show ?thesis
    proof (cases x)
      case None
      with Resolved wf t show ?thesis by (simp add: fillField_def emit_def)
    next
      case (Some el)
      define input where "input = (if el_tagName el = ''INPUT'' \<or> el_tagName el = ''TEXTAREA''
                        then Some (el_ref el) else el_inner_input el)"
      show ?thesis
      proof (cases input)
        case None
        with Some Resolved wf t show ?thesis
          by (simp add: fillField_def emit_def input_def)
      next
        case i: (Some i)
        have "trace (snd (fillField w f s)) = trace s @ (now s, Query (fc_selector f)) #
            [(t, Focus i), (t, SetValue i (fc_value f)), (t, Dispatch i ''input''),
             (t, Dispatch i ''change''), (t, Dispatch i ''keydown''), (t, Dispatch i ''keyup'')]
            @ [(t, FieldFilled f)]"
          and "now (snd (fillField w f s)) = t" and "pending (snd (fillField w f s)) = pending s"
          using Some Resolved wf i
          by (simp_all add: fillField_def emit_def input_def)
        then show ?thesis using t
          by (intro exI [of _ "[(t, Focus i), (t, SetValue i (fc_value f)), (t, Dispatch i ''input''),
             (t, Dispatch i ''change''), (t, Dispatch i ''keydown''), (t, Dispatch i ''keyup'')]"]
                exI [of _ "FieldFilled f"]) simp
      qed
    qed
  qed
qed

lemma fillAllFields_shape:
  "\<exists>evs. trace (fillAllFields w fs s) = trace s @ evs
     \<and> attempted evs = fs
     \<and> spaced 100 evs
     \<and> (\<forall>x \<in> set evs. \<not> is_click (snd x) \<and> snd x \<noteq> StorageRemove)
     \<and> (fs = [] \<longrightarrow> evs = [])
     \<and> (fs \<noteq> [] \<longrightarrow> evs \<noteq> [] \<and> hd evs = (now s, Query (fc_selector (hd fs)))
           \<and> field_outcome (snd (last evs)) \<noteq> None
           \<and> now (fillAllFields w fs s) = fst (last evs) + 100)
     \<and> now s + 100 * int (length fs) \<le> now (fillAllFields w fs s)
     \<and> pending (fillAllFields w fs s) = pending s"
proof (induction fs arbitrary: s)
  case Nil
  show ?case by simp
next
  case (Cons f rest)
  define s1 where "s1 = snd (fillField w f s)"
  define s2 where "s2 = sleep 100 s1"
  obtain mid e where b: "trace s1 = trace s @ (now s, Query (fc_selector f)) # mid @ [(now s1, e)]"
    and e: "field_outcome e = Some f"
    and mid: "\<forall>x \<in> set mid. field_outcome (snd x) = None \<and> is_fill_effect (snd x)"
    and t1: "now s \<le> now s1" and p1: "pending s1 = pending s"
    using fillField_shape [of w f s] unfolding s1_def by blast
  define B where "B = (now s, Query (fc_selector f)) # mid @ [(now s1, e)]"
  obtain evs where ih: "trace (fillAllFields w rest s2) = trace s2 @ evs"
    "attempted evs = rest" "spaced 100 evs"
    "\<forall>x \<in> set evs. \<not> is_click (snd x) \<and> snd x \<noteq> StorageRemove"
    "rest = [] \<longrightarrow> evs = []"
    "rest \<noteq> [] \<longrightarrow> evs \<noteq> [] \<and> hd evs = (now s2, Query (fc_selector (hd rest)))
           \<and> field_outcome (snd (last evs)) \<noteq> None
           \<and> now (fillAllFields w rest s2) = fst (last evs) + 100"
    "now s2 + 100 * int (length rest) \<le> now (fillAllFields w rest s2)"
    "pending (fillAllFields w rest s2) = pending s2"
    using Cons.IH [of s2] by blast
  have fa: "fillAllFields w (f # rest) s = fillAllFields w rest s2"
    by (simp add: s1_def s2_def)
  have n2: "now s2 = now s1 + 100" and tr2: "trace s2 = trace s @ B" and p2: "pending s2 = pending s"
    by (simp_all add: s2_def b B_def p1)
  have Bne: "B \<noteq> []" "hd B = (now s, Query (fc_selector f))" "last B = (now s1, e)"
    by (simp_all add: B_def)
  have midnone: "attempted mid = []"
    using mid by (intro attempted_none) simp
  have attB: "attempted B = [f]"
    by (simp add: B_def attempted_append midnone e)
  have spB: "spaced 100 B"
    by (rule spaced_no_outcome) (use mid in \<open>auto simp: B_def butlast_append\<close>)
  have clB: "\<forall>x \<in> set B. \<not> is_click (snd x) \<and> snd x \<noteq> StorageRemove"
  proof
    fix x assume "x \<in> set B"
    then consider "x = (now s, Query (fc_selector f))" | "x \<in> set mid" | "x = (now s1, e)"
      by (auto simp: B_def)
    then show "\<not> is_click (snd x) \<and> snd x \<noteq> StorageRemove"
    proof cases
      case 1
      then show ?thesis by simp
    next
      case 2
      with mid have "is_fill_effect (snd x)" by simp
      then show ?thesis by (cases "snd x") auto
    next
      case 3
      with e show ?thesis by (cases e) auto
    qed
  qed
  have sp: "spaced 100 (B @ evs)"
  proof (rule spaced_append [OF spB ih(3)])
    assume "evs \<noteq> []"
    then have "rest \<noteq> []" using ih(5) by blast
    with ih(6) have "hd evs = (now s2, Query (fc_selector (hd rest)))" by simp
    then show "fst (hd evs) = fst (last B) + 100 \<and> is_query (snd (hd evs))"
      by (simp add: Bne n2)
  qed
  have lastpart: "evs \<noteq> [] \<and> hd evs = (now s2, Query (fc_selector (hd rest)))
      \<and> field_outcome (snd (last evs)) \<noteq> None
      \<and> now (fillAllFields w rest s2) = fst (last evs) + 100" if "rest \<noteq> []"
    using ih(6) that by blast
  have fin: "field_outcome (snd (last (B @ evs))) \<noteq> None
             \<and> now (fillAllFields w rest s2) = fst (last (B @ evs)) + 100"
  proof (cases "rest = []")
    case True
    then have "evs = []" using ih(5) by blast
    then show ?thesis using True Bne e n2 by (simp add: s2_def)
  next
    case False
    then show ?thesis using lastpart by simp
  qed
  have tm: "now s + 100 * int (length (f # rest)) \<le> now (fillAllFields w rest s2)"
    using ih(7) n2 t1 by simp
  have c1: "trace (fillAllFields w rest s2) = trace s @ (B @ evs)"
    using ih(1) tr2 by simp
  have c2: "attempted (B @ evs) = f # rest"
    using attB ih(2) by (simp add: attempted_append)
  have c4: "\<forall>x \<in> set (B @ evs). \<not> is_click (snd x) \<and> snd x \<noteq> StorageRemove"
    using clB ih(4) by auto
  have c6: "B @ evs \<noteq> [] \<and> hd (B @ evs) = (now s, Query (fc_selector (hd (f # rest))))"
    using Bne by simp
  have c8: "pending (fillAllFields w rest s2) = pending s"
    using ih(8) p2 by simp
  show ?case
    unfolding fa
    using c1 c2 sp c4 c6 fin tm c8 by (intro exI [of _ "B @ evs"]) simp
qed

lemma not_fill_no_outcome: "\<not> is_fill_effect e \<Longrightarrow> field_outcome e = None"
  by (cases e) auto

lemma clickLoginButton_shape:
  "\<exists>rest. trace (snd (clickLoginButton w sel s)) = trace s @ (now s, Query sel) # rest
     \<and> (\<forall>x \<in> set rest. \<not> is_fill_effect (snd x) \<and> snd x \<noteq> StorageRemove)
     \<and> pending (snd (clickLoginButton w sel s)) = pending s"
proof -
  obtain r t where wf: "waitForElement w sel 5000 s = (r, (emit (Query sel) s)\<lparr>now := t\<rparr>)"
    using waitForElement_shape [of 5000 w sel s] by auto
  show ?thesis
  proof (cases r)
    case Rejected
    with wf show ?thesis by (simp add: clickLoginButton_def emit_def)
  next
    case (Resolved x)
    with wf show ?thesis by (cases x) (simp_all add: clickLoginButton_def emit_def)
  qed
qed

lemma applyPending_shape:
  "\<exists>pre login t. trace (applyPending w d s) = trace s @ pre @ (t, StorageRemove) # login
     \<and> attempted pre = fill_fields d
     \<and> spaced 100 pre
     \<and> (\<forall>x \<in> set pre. \<not> is_click (snd x) \<and> snd x \<noteq> StorageRemove)
     \<and> (\<forall>x \<in> set login. \<not> is_fill_effect (snd x) \<and> snd x \<noteq> StorageRemove)
     \<and> now s + 500 \<le> t
     \<and> (case loginButtonSelector d of
           None \<Rightarrow> login = []
         | Some sel \<Rightarrow> if sel = [] then login = []
                        else login \<noteq> [] \<and> hd login = (t + 300, Query sel))
     \<and> pending (applyPending w d s) = None"
proof -
  define sA where "sA = fillAllFields w (fill_fields d) (sleep 500 s)"
  define s3 where "s3 = storage_remove sA"
  obtain pre where pre: "trace sA = trace s @ pre" "attempted pre = fill_fields d"
    "spaced 100 pre" "\<forall>x \<in> set pre. \<not> is_click (snd x) \<and> snd x \<noteq> StorageRemove"
    "now (sleep 500 s) + 100 * int (length (fill_fields d)) \<le> now sA"
    using fillAllFields_shape [of w "fill_fields d" "sleep 500 s"] unfolding sA_def by auto
  have t: "now s + 500 \<le> now sA" using pre(5) by simp
  have tr3: "trace s3 = trace s @ pre @ [(now sA, StorageRemove)]" and p3: "pending s3 = None"
    and n3: "now s3 = now sA"
    by (simp_all add: s3_def pre(1))
  have ap: "applyPending w d s =
     (case loginButtonSelector d of
        None \<Rightarrow> s3
      | Some sel \<Rightarrow> if sel = [] then s3 else snd (clickLoginButton w sel (sleep 300 s3)))"
    unfolding applyPending_def Let_def sA_def s3_def by (rule refl)
  show ?thesis
  proof (cases "loginButtonSelector d")
    case None
    with ap tr3 p3 pre t show ?thesis
      by (intro exI [of _ pre] exI [of _ "[]"] exI [of _ "now sA"]) simp
  next
    case (Some sel)
    show ?thesis
    proof (cases "sel = []")
      case True
      with Some ap tr3 p3 pre t show ?thesis
        by (intro exI [of _ pre] exI [of _ "[]"] exI [of _ "now sA"]) simp
    next
      case False
      obtain rest where r: "trace (snd (clickLoginButton w sel (sleep 300 s3)))
           = trace (sleep 300 s3) @ (now (sleep 300 s3), Query sel) # rest"
        "\<forall>x \<in> set rest. \<not> is_fill_effect (snd x) \<and> snd x \<noteq> StorageRemove"
        "pending (snd (clickLoginButton w sel (sleep 300 s3))) = pending (sleep 300 s3)"
        using clickLoginButton_shape [of w sel "sleep 300 s3"] by blast
      have a: "applyPending w d s = snd (clickLoginButton w sel (sleep 300 s3))"
        using ap Some False by simp
      have tr: "trace (applyPending w d s)
          = trace s @ pre @ (now sA, StorageRemove) # ((now sA + 300, Query sel) # rest)"
        unfolding a r(1) by (simp add: tr3 n3)
      have lg: "\<forall>x \<in> set ((now sA + 300, Query sel) # rest).
                  \<not> is_fill_effect (snd x) \<and> snd x \<noteq> StorageRemove"
        using r(2) by simp
      have pn: "pending (applyPending w d s) = None"
        unfolding a r(3) by (simp add: p3)
      show ?thesis
        using tr lg pn pre(2,3,4) t Some False
        by (intro exI [of _ pre] exI [of _ "(now sA + 300, Query sel) # rest"]
                  exI [of _ "now sA"]) simp
    qed
  qed
qed

lemma attempted_no_fill:
  "\<forall>x \<in> set xs. \<not> is_fill_effect (snd x) \<Longrightarrow> attempted xs = []"
  by (rule attempted_none) (simp add: not_fill_no_outcome)


lemma checkAndFillPending_Json:
  "pending s = Some (Json d) \<Longrightarrow>
     checkAndFillPending w s =
       (if now s - timestamp d \<le> 10000 then applyPending w d s else storage_remove s)"
  by (simp add: checkAndFillPending_def)

lemma attempted_applyPending:
  "attempted (new_effects s (applyPending w d s)) = fill_fields d"
proof -
  obtain pre login t where a: "trace (applyPending w d s) = trace s @ pre @ (t, StorageRemove) # login"
    "attempted pre = fill_fields d"
    "\<forall>x \<in> set login. \<not> is_fill_effect (snd x) \<and> snd x \<noteq> StorageRemove"
    using applyPending_shape [of w d s] by blast
  have "attempted login = []" using a(3) by (intro attempted_no_fill) simp
  then show ?thesis
    using a(1,2) by (simp add: new_effects_def attempted_append)
qed

text \<open>
  C1, as stated, fails on the code at the boundary: the expiry test is
  \<open>Date.now() - timestamp > 10000\<close>, so a payload whose age is exactly 10,000 ms is not
  expired.  On \<open>login_page\<close> such a payload is applied: all three fields are attempted and
  the user field receives its value.  At 10,001 ms the payload is only removed.
\<close>

theorem freshness_boundary_counterexample:
  "now (page_load 10000 (Some (Json example_payload))) - timestamp example_payload = 10000
   \<and> attempted (trace (checkAndFillPending login_page
                          (page_load 10000 (Some (Json example_payload)))))
       = [field_user, field_bad, field_missing]
   \<and> (10500, SetValue 1 ''alice'')
       \<in> set (trace (checkAndFillPending login_page
                        (page_load 10000 (Some (Json example_payload)))))
   \<and> trace (checkAndFillPending login_page (page_load 10001 (Some (Json example_payload))))
       = [(10001, StorageRemove)]"
  by code_simp

text \<open>
  C1, amended.  A pending-fill payload read in the resume phase is applied exactly when
  its age, now minus its timestamp, is at most 10,000 ms: then the resume phase is
  \<open>applyPending\<close> and every field of the payload is attempted; with a greater age the
  payload is removed and nothing else happens.  An age of exactly 10,000 ms is applied,
  10,001 ms is expired.
\<close>

theorem freshness_window:
  assumes "pending s = Some (Json d)"
  shows "checkAndFillPending w s =
           (if now s - timestamp d \<le> 10000 then applyPending w d s else storage_remove s)
         \<and> attempted (new_effects s (checkAndFillPending w s)) =
           (if now s - timestamp d \<le> 10000 then fill_fields d else [])
         \<and> (if now s - timestamp d \<le> 10000
             then checkAndFillPending w s = applyPending w d s
             else new_effects s (checkAndFillPending w s) = [(now s, StorageRemove)])"
proof (cases "now s - timestamp d \<le> 10000")
  case True
  then show ?thesis
    using checkAndFillPending_Json [OF assms, of w] attempted_applyPending [of s w d] by simp
next
  case False
  then show ?thesis
    using checkAndFillPending_Json [OF assms, of w] by (simp add: new_effects_def)
qed

theorem freshness_window_witness:
  "pending (page_load 9999 (Some (Json example_payload))) = Some (Json example_payload)
   \<and> now (page_load 9999 (Some (Json example_payload))) - timestamp example_payload = 9999
   \<and> attempted (new_effects (page_load 9999 (Some (Json example_payload)))
                   (checkAndFillPending login_page
                      (page_load 9999 (Some (Json example_payload)))))
       = fill_fields example_payload"
proof -
  have h: "pending (page_load 9999 (Some (Json example_payload))) = Some (Json example_payload)"
    by (simp add: page_load_def)
  have a: "now (page_load 9999 (Some (Json example_payload))) - timestamp example_payload = 9999"
    by (simp add: page_load_def example_payload_def)
  have le: "now (page_load 9999 (Some (Json example_payload))) - timestamp example_payload
              \<le> 10000"
    using a by simp
  from freshness_window [OF h, of login_page]
  have "attempted (new_effects (page_load 9999 (Some (Json example_payload)))
                   (checkAndFillPending login_page
                      (page_load 9999 (Some (Json example_payload)))))
       = (if now (page_load 9999 (Some (Json example_payload))) - timestamp example_payload
               \<le> 10000
          then fill_fields example_payload else [])"
    by blast
  then have "attempted (new_effects (page_load 9999 (Some (Json example_payload)))
                   (checkAndFillPending login_page
                      (page_load 9999 (Some (Json example_payload)))))
       = fill_fields example_payload"
    using le by (simp only: if_True)
  then show ?thesis using h a by blast
qed









text \<open>
  C9.  \<open>switchEnvironment\<close> does four things in this order, all at the instant of the
  call: it clears the local and the session store of the page (or fails to, when the page
  may not touch them), stores the payload built from the environment's id, fields and
  login-button selector and the current instant in the extension store, and then sets the
  location to \<open>loginUrl\<close>.  When the navigation is issued the payload is in the extension
  store, and both page stores are empty unless the page was denied access to them.
\<close>

theorem switchEnvironment_order:
  "new_effects s (switchEnvironment env s) =
     [(now s, if storage_blocked s then LocalStorageFailed else LocalStorageCleared),
      (now s, if storage_blocked s then SessionStorageFailed else SessionStorageCleared),
      (now s, StorageSet \<lparr>envId = env_id env, fill_fields = env_fields env,
                          loginButtonSelector = env_loginButtonSelector env,
                          timestamp = now s\<rparr>),
      (now s, Navigate (loginUrl env))]
   \<and> pending (switchEnvironment env s) =
       Some (Json \<lparr>envId = env_id env, fill_fields = env_fields env,
                   loginButtonSelector = env_loginButtonSelector env, timestamp = now s\<rparr>)
   \<and> location (switchEnvironment env s) = loginUrl env
   \<and> localStorage (switchEnvironment env s) = (if storage_blocked s then localStorage s else [])
   \<and> sessionStorage (switchEnvironment env s)
       = (if storage_blocked s then sessionStorage s else [])"
  by (simp add: switchEnvironment_def clearLocalStorage_def clearSessionStorage_def
        storage_set_def emit_def new_effects_def Let_def)

theorem switchEnvironment_order_witness:
  "new_effects (page_load 5 None) (switchEnvironment example_env (page_load 5 None))
     = [(5, LocalStorageCleared), (5, SessionStorageCleared),
        (5, StorageSet \<lparr>envId = ''env'', fill_fields = [field_user],
                         loginButtonSelector = Some ''#btn'', timestamp = 5\<rparr>),
        (5, Navigate ''https://staging.example.com/login'')]
   \<and> localStorage (page_load 5 None) = [(''token'', ''abc'')]
   \<and> localStorage (switchEnvironment example_env (page_load 5 None)) = []
   \<and> sessionStorage (switchEnvironment example_env (page_load 5 None)) = []"
proof -
  have a: "now (page_load 5 None) = 5" "\<not> storage_blocked (page_load 5 None)"
    "localStorage (page_load 5 None) = [(''token'', ''abc'')]"
    by (simp_all add: page_load_def)
  have b: "env_id example_env = ''env''" "env_fields example_env = [field_user]"
    "env_loginButtonSelector example_env = Some ''#btn''"
    "loginUrl example_env = ''https://staging.example.com/login''"
    by (simp_all add: example_env_def)
  from switchEnvironment_order [of "page_load 5 None" example_env] a b
  show ?thesis by simp
qed

end
